theory Spec2Isabelle
  imports Complex_Main
begin

section \<open>The snake game: data model\<close>

text \<open>
  The game component \<open>App\<close> keeps its fast-changing state in three mutable references
  (\<open>snakeRef\<close>, \<open>foodRef\<close>, \<open>directionRef\<close>) and three reactive variables
  (\<open>score\<close>, \<open>gameOver\<close>, \<open>isPlaying\<close>). All numbers of the program are JavaScript
  numbers holding small integers; coordinates are modelled as \<open>int\<close> (a head can reach
  \<open>-1\<close>), and the division \<open>CANVAS_SIZE / GRID_SIZE\<close> is written as a division of
  reals; its value 20 is a double, so nothing is rounded there.
\<close>

definition CANVAS_SIZE :: int where
  "CANVAS_SIZE = 400"

definition GRID_SIZE :: int where
  "GRID_SIZE = 20"

definition SNAKE_SPEED :: int where
  "SNAKE_SPEED = 150"

text \<open>An object literal \<open>{ x: .., y: .. }\<close>: a grid cell, and also a direction vector.\<close>

record cell =
  pos_x :: int
  pos_y :: int

text \<open>
  The state owned by one mounted \<open>App\<close>. The interval handle \<open>gameLoopRef\<close> is not a
  field: the effect on \<open>isPlaying\<close> installs the interval when \<open>isPlaying\<close> becomes true
  and \<open>moveSnake\<close> clears it in the same breath as it sets \<open>isPlaying\<close> to false, so the
  periodic callback is armed exactly while \<open>isPlaying\<close> holds.
\<close>

record game =
  snakeRef :: "cell list"
  foodRef :: cell
  directionRef :: cell
  score :: int
  gameOver :: bool
  isPlaying :: bool

text \<open>The values of the \<open>useRef\<close> and \<open>useState\<close> initialisers: the state at mount.\<close>

definition initialGame :: game where
  "initialGame =
     \<lparr>snakeRef = [\<lparr>pos_x = 10, pos_y = 10\<rparr>],
      foodRef = \<lparr>pos_x = 15, pos_y = 15\<rparr>,
      directionRef = \<lparr>pos_x = 1, pos_y = 0\<rparr>,
      score = 0, gameOver = False, isPlaying = False\<rparr>"

text \<open>
  The three lifecycle phases, read off the two flags the way the component's markup reads
  them: the button is shown when \<open>isPlaying\<close> is false, and it is labelled
  "Restart Game" when \<open>gameOver\<close> is true.
\<close>

datatype phase = Idle | Running | Over

definition phase_of :: "game \<Rightarrow> phase" where
  "phase_of s = (if isPlaying s then Running else if gameOver s then Over else Idle)"

section \<open>Double-precision arithmetic\<close>

text \<open>
  JavaScript numbers are IEEE 754 doubles. The integers the game adds, compares and
  multiplies are far below \<open>2\<^sup>5\<^sup>3\<close>, where doubles are exact, and the quotient
  \<open>CANVAS_SIZE / GRID_SIZE\<close> is exactly 20. The one operation that rounds is the product
  of a random number and that quotient, so rounding is modelled: \<open>roundDouble v\<close> is the
  double nearest to the real \<open>v\<close>, ties going to the even significand, for reals within
  the finite range of doubles. A double has 53 significant bits; \<open>binade v\<close> is the
  exponent of the power of two at or below \<open>\<bar>v\<bar>\<close>, held at \<open>-1022\<close> for the
  subnormal numbers, and \<open>ulp v\<close> is the spacing of the doubles around \<open>v\<close>.
\<close>

definition roundHalfEven :: "real \<Rightarrow> int" where
  "roundHalfEven t =
     (let f = \<lfloor>t\<rfloor> in
      if t - of_int f < 1 / 2 then f
      else if 1 / 2 < t - of_int f then f + 1
      else if even f then f else f + 1)"

definition binade :: "real \<Rightarrow> int" where
  "binade v = max \<lfloor>log 2 \<bar>v\<bar>\<rfloor> (- 1022)"

definition ulp :: "real \<Rightarrow> real" where
  "ulp v = 2 powi (binade v - 52)"

definition roundDouble :: "real \<Rightarrow> real" where
  "roundDouble v = (if v = 0 then 0 else of_int (roundHalfEven (v / ulp v)) * ulp v)"

definition isDouble :: "real \<Rightarrow> bool" where
  "isDouble v \<longleftrightarrow> roundDouble v = v"

section \<open>Random food\<close>

text \<open>
  \<open>Math.random()\<close> is an input of the model: a draw is a pair of numbers, one for each
  call made by \<open>getRandomPosition\<close>, and \<open>validDraw\<close> states what \<open>Math.random\<close>
  promises of each: a double in \<open>[0, 1)\<close>. The product is rounded to a double before
  \<open>Math.floor\<close> is taken, as the source computes it.
\<close>

type_synonym draw = "real \<times> real"

definition validDraw :: "draw \<Rightarrow> bool" where
  "validDraw r \<longleftrightarrow>
     isDouble (fst r) \<and> 0 \<le> fst r \<and> fst r < 1 \<and>
     isDouble (snd r) \<and> 0 \<le> snd r \<and> snd r < 1"

definition getRandomPosition :: "draw \<Rightarrow> cell" where
  "getRandomPosition r =
     \<lparr>pos_x = \<lfloor>roundDouble (fst r * (of_int CANVAS_SIZE / of_int GRID_SIZE))\<rfloor>,
      pos_y = \<lfloor>roundDouble (snd r * (of_int CANVAS_SIZE / of_int GRID_SIZE))\<rfloor>\<rparr>"

section \<open>Drawing\<close>

text \<open>
  The 2D context is modelled by the sequence of drawing calls it has received, oldest
  first. A \<open>FillRect\<close> carries the \<open>fillStyle\<close> in force when it was issued.
\<close>

datatype drawcall =
  ClearRect int int int int
| FillRect string int int int int

definition drawSnake :: "drawcall list \<Rightarrow> game \<Rightarrow> drawcall list" where
  "drawSnake ctx s =
     ctx @ map (\<lambda>segment.
                  FillRect ''green'' (pos_x segment * GRID_SIZE) (pos_y segment * GRID_SIZE)
                    GRID_SIZE GRID_SIZE)
             (snakeRef s)"

definition drawFood :: "drawcall list \<Rightarrow> game \<Rightarrow> drawcall list" where
  "drawFood ctx s =
     ctx @ [FillRect ''red'' (pos_x (foodRef s) * GRID_SIZE) (pos_y (foodRef s) * GRID_SIZE)
              GRID_SIZE GRID_SIZE]"

section \<open>Moving the snake\<close>

text \<open>The local \<open>head\<close> of \<open>moveSnake\<close>: a copy of the first segment, shifted by the direction.\<close>

definition shifted :: "cell \<Rightarrow> cell \<Rightarrow> cell" where
  "shifted h d = \<lparr>pos_x = pos_x h + pos_x d, pos_y = pos_y h + pos_y d\<rparr>"

text \<open>The condition of the first \<open>if\<close> of \<open>moveSnake\<close>, for a head and the snake before the move.\<close>

definition collides :: "cell \<Rightarrow> cell list \<Rightarrow> bool" where
  "collides head snake \<longleftrightarrow>
     pos_x head < 0 \<or>
     pos_y head < 0 \<or>
     (of_int CANVAS_SIZE / of_int GRID_SIZE :: real) \<le> of_int (pos_x head) \<or>
     (of_int CANVAS_SIZE / of_int GRID_SIZE :: real) \<le> of_int (pos_y head) \<or>
     list_ex (\<lambda>segment. pos_x segment = pos_x head \<and> pos_y segment = pos_y head) snake"

text \<open>
  \<open>moveSnake\<close>. The draw is consulted only on the branch that calls
  \<open>getRandomPosition\<close>. On an empty array the source reads \<open>undefined\<close>, computes a head
  of \<open>NaN\<close>s that passes every comparison as false, prepends it and pops it again: the
  state is unchanged, which the first case writes out.
\<close>

definition moveSnake :: "draw \<Rightarrow> game \<Rightarrow> game" where
  "moveSnake r s =
     (case snakeRef s of
        [] \<Rightarrow> s
      | first # _ \<Rightarrow>
          let head = shifted first (directionRef s) in
          if collides head (snakeRef s) then
            s\<lparr>gameOver := True, isPlaying := False\<rparr>
          else if pos_x head = pos_x (foodRef s) \<and> pos_y head = pos_y (foodRef s) then
            s\<lparr>snakeRef := head # snakeRef s, score := score s + 1,
              foodRef := getRandomPosition r\<rparr>
          else
            s\<lparr>snakeRef := butlast (head # snakeRef s)\<rparr>)"

text \<open>
  \<open>updateGame\<close>, the periodic callback: clear, draw the snake, draw the food, then move.
  It returns the context after the drawing and the state after the move.
\<close>

definition updateGame :: "draw \<Rightarrow> drawcall list \<times> game \<Rightarrow> drawcall list \<times> game" where
  "updateGame r cs =
     (case cs of (ctx, s) \<Rightarrow>
        (drawFood (drawSnake (ctx @ [ClearRect 0 0 CANVAS_SIZE CANVAS_SIZE]) s) s,
         moveSnake r s))"

text \<open>The mount effect: the snake and the food are drawn once, with no clearing.\<close>

definition mountEffect :: "drawcall list \<Rightarrow> game \<Rightarrow> drawcall list" where
  "mountEffect ctx s = drawFood (drawSnake ctx s) s"

section \<open>Keys and starting\<close>

definition handleKeyPress :: "string \<Rightarrow> game \<Rightarrow> game" where
  "handleKeyPress key s =
     (if \<not> isPlaying s then s
      else if key = ''ArrowUp'' then
        (if pos_y (directionRef s) = 0 then s\<lparr>directionRef := \<lparr>pos_x = 0, pos_y = -1\<rparr>\<rparr> else s)
      else if key = ''ArrowDown'' then
        (if pos_y (directionRef s) = 0 then s\<lparr>directionRef := \<lparr>pos_x = 0, pos_y = 1\<rparr>\<rparr> else s)
      else if key = ''ArrowLeft'' then
        (if pos_x (directionRef s) = 0 then s\<lparr>directionRef := \<lparr>pos_x = -1, pos_y = 0\<rparr>\<rparr> else s)
      else if key = ''ArrowRight'' then
        (if pos_x (directionRef s) = 0 then s\<lparr>directionRef := \<lparr>pos_x = 1, pos_y = 0\<rparr>\<rparr> else s)
      else s)"

definition startGame :: "draw \<Rightarrow> game \<Rightarrow> game" where
  "startGame r s =
     s\<lparr>snakeRef := [\<lparr>pos_x = 10, pos_y = 10\<rparr>],
       directionRef := \<lparr>pos_x = 1, pos_y = 0\<rparr>,
       foodRef := getRandomPosition r,
       score := 0, gameOver := False, isPlaying := True\<rparr>"

section \<open>Reachable states\<close>

text \<open>
  What can happen to a mounted game: the button calls \<open>startGame\<close> and is rendered only
  while \<open>isPlaying\<close> is false; the interval calls \<open>updateGame\<close>, whose effect on the state
  is \<open>moveSnake\<close>, and is armed only while \<open>isPlaying\<close> is true; a key can be pressed at
  any time.
\<close>

inductive reachable :: "game \<Rightarrow> bool" where
  mounted: "reachable initialGame"
| started: "reachable s \<Longrightarrow> \<not> isPlaying s \<Longrightarrow> validDraw r \<Longrightarrow> reachable (startGame r s)"
| ticked: "reachable s \<Longrightarrow> isPlaying s \<Longrightarrow> validDraw r \<Longrightarrow> reachable (moveSnake r s)"
| pressed: "reachable s \<Longrightarrow> reachable (handleKeyPress key s)"

section \<open>Vocabulary of the specification\<close>

text \<open>The grid has \<open>N \<times> N\<close> cells with \<open>N = 20\<close>; a cell is on the grid when both coordinates lie in \<open>[0, N)\<close>.\<close>

definition gridN :: int where
  "gridN = 20"

definition inGrid :: "cell \<Rightarrow> bool" where
  "inGrid c \<longleftrightarrow> 0 \<le> pos_x c \<and> pos_x c < gridN \<and> 0 \<le> pos_y c \<and> pos_y c < gridN"

text \<open>The unit vector that each of the four arrow keys asks for; any other key asks for none.\<close>

definition requested :: "string \<Rightarrow> cell option" where
  "requested key =
     (if key = ''ArrowUp'' then Some \<lparr>pos_x = 0, pos_y = -1\<rparr>
      else if key = ''ArrowDown'' then Some \<lparr>pos_x = 0, pos_y = 1\<rparr>
      else if key = ''ArrowLeft'' then Some \<lparr>pos_x = -1, pos_y = 0\<rparr>
      else if key = ''ArrowRight'' then Some \<lparr>pos_x = 1, pos_y = 0\<rparr>
      else None)"

definition opposite :: "cell \<Rightarrow> cell \<Rightarrow> bool" where
  "opposite d c \<longleftrightarrow> pos_x d = - pos_x c \<and> pos_y d = - pos_y c"

definition unitVector :: "cell \<Rightarrow> bool" where
  "unitVector d \<longleftrightarrow>
     d = \<lparr>pos_x = 1, pos_y = 0\<rparr> \<or> d = \<lparr>pos_x = -1, pos_y = 0\<rparr> \<or>
     d = \<lparr>pos_x = 0, pos_y = 1\<rparr> \<or> d = \<lparr>pos_x = 0, pos_y = -1\<rparr>"



text \<open>
  \<open>render\<close> as the specification words it: clear the sink, draw every snake cell, draw
  the food cell, all from one snapshot.
\<close>

definition spec_render :: "game \<Rightarrow> drawcall list" where
  "spec_render s =
     ClearRect 0 0 CANVAS_SIZE CANVAS_SIZE #
     map (\<lambda>c. FillRect ''green'' (pos_x c * GRID_SIZE) (pos_y c * GRID_SIZE) GRID_SIZE GRID_SIZE)
       (snakeRef s) @
     [FillRect ''red'' (pos_x (foodRef s) * GRID_SIZE) (pos_y (foodRef s) * GRID_SIZE)
        GRID_SIZE GRID_SIZE]"

section \<open>Example games\<close>

text \<open>
  A game started with a draw that puts the food at \<open>(11, 10)\<close>, right in front of the
  snake; the same game one move later, grown to two cells, with the food redrawn to
  \<open>(15, 15)\<close>; and that game after the keys Up and Left, pressed before the next move.
\<close>

definition ex_fresh :: game where
  "ex_fresh = startGame (9 / 16, 1 / 2) initialGame"

definition ex_grown :: game where
  "ex_grown = moveSnake (3 / 4, 3 / 4) ex_fresh"

definition ex_up :: game where
  "ex_up = handleKeyPress ''ArrowUp'' ex_grown"

definition ex_left :: game where
  "ex_left = handleKeyPress ''ArrowLeft'' ex_up"

text \<open>A snake of two cells at the left edge, heading left.\<close>

definition ex_edge :: game where
  "ex_edge =
     \<lparr>snakeRef = [\<lparr>pos_x = 0, pos_y = 10\<rparr>, \<lparr>pos_x = 1, pos_y = 10\<rparr>],
      foodRef = \<lparr>pos_x = 15, pos_y = 15\<rparr>,
      directionRef = \<lparr>pos_x = -1, pos_y = 0\<rparr>,
      score = 1, gameOver = False, isPlaying = True\<rparr>"

text \<open>A snake of four cells coiled in a square, its head about to step onto its tail.\<close>

definition ex_coil :: game where
  "ex_coil =
     \<lparr>snakeRef = [\<lparr>pos_x = 10, pos_y = 10\<rparr>, \<lparr>pos_x = 10, pos_y = 11\<rparr>,
                 \<lparr>pos_x = 11, pos_y = 11\<rparr>, \<lparr>pos_x = 11, pos_y = 10\<rparr>],
      foodRef = \<lparr>pos_x = 15, pos_y = 15\<rparr>,
      directionRef = \<lparr>pos_x = 1, pos_y = 0\<rparr>,
      score = 3, gameOver = False, isPlaying = True\<rparr>"

text \<open>The game after the move that follows the two key presses: it is over.\<close>

definition ex_over :: game where
  "ex_over = moveSnake (0, 0) ex_left"

section \<open>The invariant of the reachable states\<close>

definition wellFormed :: "game \<Rightarrow> bool" where
  "wellFormed s \<longleftrightarrow>
     snakeRef s \<noteq> [] \<and> distinct (snakeRef s) \<and> (\<forall>c \<in> set (snakeRef s). inGrid c) \<and>
     inGrid (foodRef s) \<and> score s = int (length (snakeRef s)) - 1 \<and>
     unitVector (directionRef s)"

section \<open>Rounding to doubles\<close>

lemma roundHalfEven_near: "\<bar>of_int (roundHalfEven t) - t\<bar> \<le> 1 / 2"
  unfolding roundHalfEven_def Let_def by (auto; linarith)

lemma roundHalfEven_of_int [simp]: "roundHalfEven (of_int n) = n"
  by (simp add: roundHalfEven_def)

lemma roundHalfEven_ge: "of_int n \<le> t \<Longrightarrow> n \<le> roundHalfEven t"
  unfolding roundHalfEven_def Let_def by (auto simp: le_floor_iff; linarith)

lemma roundHalfEven_le: "t \<le> of_int n \<Longrightarrow> roundHalfEven t \<le> n"
proof -
  assume le: "t \<le> of_int n"
  have "\<lfloor>t\<rfloor> \<le> n" using le by (simp add: floor_le_iff) 
  moreover have "\<lfloor>t\<rfloor> = n \<Longrightarrow> t - of_int \<lfloor>t\<rfloor> = 0 \<or> t - of_int \<lfloor>t\<rfloor> < 0" using le by linarith
  moreover have "0 \<le> t - of_int \<lfloor>t\<rfloor>" by linarith
  ultimately show ?thesis
    unfolding roundHalfEven_def Let_def by (auto; linarith)
qed

lemma ulp_pos: "0 < ulp v"
  by (simp add: ulp_def)

lemma binade_ge: "- 1022 \<le> binade v"
  by (simp add: binade_def)

lemma binade_le:
  assumes "v \<noteq> 0" and "\<bar>v\<bar> < 2 powi (k + 1)" and "- 1022 \<le> k"
  shows "binade v \<le> k"
proof -
  have pos: "0 < \<bar>v\<bar>" using assms(1) by simp
  have "\<bar>v\<bar> < 2 powr of_int (k + 1)"
    using assms(2) powr_real_of_int' [of 2 "k + 1"] by simp
  then have "log 2 \<bar>v\<bar> < of_int (k + 1)"
    using pos by (simp add: log_less_iff)
  then have "\<lfloor>log 2 \<bar>v\<bar>\<rfloor> < k + 1"
    by (subst floor_less_iff) simp
  then show ?thesis
    using assms(3) by (simp add: binade_def)
qed

lemma binade_eq:
  assumes "2 powi k \<le> \<bar>v\<bar>" and "\<bar>v\<bar> < 2 powi (k + 1)" and "- 1022 \<le> k"
  shows "binade v = k"
proof -
  have pos: "0 < \<bar>v\<bar>"
    using assms(1) by (smt (verit) zero_less_power_int)
  have "2 powr of_int k \<le> \<bar>v\<bar>" "\<bar>v\<bar> < 2 powr (of_int k + 1)"
    using assms(1,2) powr_real_of_int' [of 2 k] powr_real_of_int' [of 2 "k + 1"] by simp_all
  then have "\<lfloor>log 2 \<bar>v\<bar>\<rfloor> = k"
    using pos by (simp add: floor_log_eq_powr_iff)
  then show ?thesis
    using assms(3) by (simp add: binade_def)
qed

lemma roundDouble_near: "\<bar>roundDouble v - v\<bar> \<le> ulp v / 2"
proof (cases "v = 0")
  case True
  then show ?thesis using ulp_pos [of v] by (simp add: roundDouble_def)
next
  case False
  let ?n = "roundHalfEven (v / ulp v)"
  have "of_int ?n * ulp v - v = (of_int ?n - v / ulp v) * ulp v"
    using ulp_pos [of v] by (simp add: field_simps)
  then have "\<bar>of_int ?n * ulp v - v\<bar> = \<bar>of_int ?n - v / ulp v\<bar> * ulp v"
    using ulp_pos [of v] by (simp add: abs_mult)
  also have "\<dots> \<le> 1 / 2 * ulp v"
    using roundHalfEven_near [of "v / ulp v"] ulp_pos [of v]
    by (intro mult_right_mono) simp_all
  finally show ?thesis
    using False by (simp add: roundDouble_def)
qed

text \<open>Integers are fixed points of the comparison: rounding never crosses one.\<close>

lemma ulp_inverse_nat:
  assumes "v \<noteq> 0" and "\<bar>v\<bar> < 2 ^ 53"
  shows "\<exists>m::nat. 1 / ulp v = 2 ^ m"
proof -
  have "\<bar>v\<bar> < 2 powi (52 + 1)"
    using assms(2) by simp
  then have "binade v \<le> 52"
    using assms(1) by (intro binade_le) simp_all
  then have "1 / ulp v = 2 ^ nat (52 - binade v)"
    unfolding ulp_def by (simp add: power_int_def field_simps power_inverse nat_diff_distrib')
  then show ?thesis ..
qed

lemma roundDouble_int_ge:
  assumes "\<bar>v\<bar> < 2 ^ 53" and "of_int k \<le> v"
  shows "of_int k \<le> roundDouble v"
proof (cases "v = 0")
  case True
  with assms(2) show ?thesis by (simp add: roundDouble_def)
next
  case False
  from ulp_inverse_nat [OF False assms(1)] obtain m :: nat where m: "1 / ulp v = 2 ^ m" ..
  then have u: "ulp v = 1 / 2 ^ m"
    by (metis div_by_1 divide_divide_eq_right mult_1)
  have "of_int (k * 2 ^ m) \<le> v / ulp v"
    using assms(2) by (simp add: u)
  then have "k * 2 ^ m \<le> roundHalfEven (v / ulp v)"
    by (rule roundHalfEven_ge)
  then have "of_int (k * 2 ^ m) \<le> (of_int (roundHalfEven (v / ulp v)) :: real)"
    by (simp only: of_int_le_iff)
  then have "of_int k \<le> of_int (roundHalfEven (v / ulp v)) * ulp v"
    by (simp add: u field_simps)
  then show ?thesis
    using False by (simp add: roundDouble_def)
qed

lemma roundDouble_int_le:
  assumes "\<bar>v\<bar> < 2 ^ 53" and "v \<le> of_int k"
  shows "roundDouble v \<le> of_int k"
proof (cases "v = 0")
  case True
  with assms(2) show ?thesis by (simp add: roundDouble_def)
next
  case False
  from ulp_inverse_nat [OF False assms(1)] obtain m :: nat where m: "1 / ulp v = 2 ^ m" ..
  then have u: "ulp v = 1 / 2 ^ m"
    by (metis div_by_1 divide_divide_eq_right mult_1)
  have "v / ulp v \<le> of_int (k * 2 ^ m)"
    using assms(2) by (simp add: u)
  then have "roundHalfEven (v / ulp v) \<le> k * 2 ^ m"
    by (rule roundHalfEven_le)
  then have "(of_int (roundHalfEven (v / ulp v)) :: real) \<le> of_int (k * 2 ^ m)"
    by (simp only: of_int_le_iff)
  then have "of_int (roundHalfEven (v / ulp v)) * ulp v \<le> of_int k"
    by (simp add: u field_simps)
  then show ?thesis
    using False by (simp add: roundDouble_def)
qed

lemma roundDouble_dyadic:
  assumes "n < 2 ^ 53" and "j \<le> 1074"
  shows "roundDouble (of_nat n / 2 ^ j) = of_nat n / 2 ^ j"
proof (cases "n = 0")
  case True
  then show ?thesis by (simp add: roundDouble_def)
next
  case False
  let ?v = "of_nat n / 2 ^ j :: real"
  have pos: "0 < ?v"
    using False by simp
  have "?v < 2 ^ 53 / 2 ^ j"
    using assms(1) by (simp add: divide_strict_right_mono of_nat_less_numeral_power_cancel_iff)
  also have "\<dots> = 2 powi (52 - int j + 1)"
    by (simp add: power_int_diff)
  finally have "\<bar>?v\<bar> < 2 powi (52 - int j + 1)"
    using pos by simp
  then have "binade ?v \<le> 52 - int j"
    using False assms(2) by (intro binade_le) simp_all
  then obtain m :: nat where m: "52 - int j - binade ?v = int m"
    using nonneg_int_cases [of "52 - int j - binade ?v"] by auto
  from m have "binade ?v - 52 = - int j - int m"
    by linarith
  then have "ulp ?v = 2 powi (- int j - int m)"
    unfolding ulp_def by (rule arg_cong)
  then have u: "ulp ?v = 1 / (2 ^ j * 2 ^ m)"
    by (simp add: power_int_diff power_int_minus field_simps)
  have "?v / ulp ?v = of_int (int n * 2 ^ m)"
    by (simp add: u)
  then have "roundHalfEven (?v / ulp ?v) = int n * 2 ^ m"
    by (simp only: roundHalfEven_of_int)
  then show ?thesis
    using pos by (simp add: roundDouble_def u)
qed

lemma isDouble_below_one:
  assumes "isDouble x" and "x < 1"
  shows "x \<le> 1 - 1 / 2 ^ 53"
proof (cases "x < 1 / 2")
  case True
  have "(1 :: real) / 2 ^ 53 \<le> 1 / 2 ^ 1"
    by (intro divide_left_mono power_increasing) simp_all
  with True show ?thesis by simp
next
  case False
  then have "2 powi (- 1) \<le> \<bar>x\<bar>" "\<bar>x\<bar> < 2 powi (- 1 + 1)"
    using assms(2) by simp_all
  then have "binade x = - 1"
    by (rule binade_eq) simp
  then have u: "ulp x = 1 / 2 ^ 53"
    by (simp add: ulp_def power_int_minus field_simps)
  from False have "x \<noteq> 0" by simp
  with assms(1) have x: "x = of_int (roundHalfEven (x / ulp x)) / 2 ^ 53"
    by (simp add: isDouble_def roundDouble_def u)
  let ?n = "roundHalfEven (x / ulp x)"
  from x assms(2) have "of_int ?n < (2 ^ 53 :: real)"
    by (simp add: field_simps)
  then have "?n < 2 ^ 53"
    by (metis of_int_less_iff of_int_numeral of_int_power)
  then have "?n \<le> 2 ^ 53 - 1"
    by simp
  then have "(of_int ?n :: real) \<le> of_int (2 ^ 53 - 1)"
    by (simp only: of_int_le_iff)
  then have "of_int ?n / 2 ^ 53 \<le> (2 ^ 53 - 1) / (2 ^ 53 :: real)"
    by (simp add: divide_right_mono)
  with x show ?thesis
    by (simp add: field_simps)
qed

lemma ulp_le:
  assumes "v \<noteq> 0" and "\<bar>v\<bar> < 2 powi (k + 1)" and "- 1022 \<le> k"
  shows "ulp v \<le> 2 powi (k - 52)"
  unfolding ulp_def using binade_le [OF assms]
  by (intro power_int_increasing) simp_all

lemma roundDouble_nonneg: "0 \<le> v \<Longrightarrow> \<bar>v\<bar> < 2 ^ 53 \<Longrightarrow> 0 \<le> roundDouble v"
  using roundDouble_int_ge [of v 0] by simp

text \<open>The product of a draw and 20, rounded, stays below 20.\<close>

lemma scaled_draw_below:
  assumes "isDouble x" and "0 \<le> x" and "x < 1"
  shows "roundDouble (x * 20) < 20"
proof (cases "x * 20 < 16")
  case True
  show ?thesis
  proof (cases "x = 0")
    case True
    then show ?thesis by (simp add: roundDouble_def)
  next
    case False
    then have nz: "x * 20 \<noteq> 0" by simp
    have "\<bar>x * 20\<bar> < 2 powi (3 + 1)"
      using True assms(2) by simp
    with nz have "ulp (x * 20) \<le> 2 powi (3 - 52)"
      by (rule ulp_le) simp
    then have "ulp (x * 20) \<le> 1"
      by (simp add: power_int_minus field_simps)
    with roundDouble_near [of "x * 20"] True show ?thesis
      by linarith
  qed
next
  case False
  have top: "x * 20 \<le> 20 - 20 / 2 ^ 53"
    using isDouble_below_one [OF assms(1,3)] by simp
  have "2 powi 4 \<le> \<bar>x * 20\<bar>" "\<bar>x * 20\<bar> < 2 powi (4 + 1)"
    using False assms(2,3) by simp_all
  then have "binade (x * 20) = 4"
    by (rule binade_eq) simp
  then have u: "ulp (x * 20) = 1 / 2 ^ 48"
    by (simp add: ulp_def power_int_minus field_simps)
  let ?t = "x * 20 / ulp (x * 20)"
  have "?t \<le> (20 - 20 / 2 ^ 53) * 2 ^ 48"
    using top by (simp add: u)
  also have "\<dots> = 20 * 2 ^ 48 - 5 / 8"
    by simp
  finally have "?t \<le> 20 * 2 ^ 48 - 5 / 8" .
  with roundHalfEven_near [of ?t] have "of_int (roundHalfEven ?t) < (20 * 2 ^ 48 :: real)"
    by linarith
  then have "of_int (roundHalfEven ?t) < (of_int (20 * 2 ^ 48) :: real)"
    by simp
  then have "roundHalfEven ?t < 20 * 2 ^ 48"
    by (simp only: of_int_less_iff)
  then have "roundHalfEven ?t \<le> 20 * 2 ^ 48 - 1"
    by simp
  then have "(of_int (roundHalfEven ?t) :: real) \<le> of_int (20 * 2 ^ 48 - 1)"
    by (simp only: of_int_le_iff)
  then have "of_int (roundHalfEven ?t) / 2 ^ 48 \<le> (20 * 2 ^ 48 - 1) / (2 ^ 48 :: real)"
    by (simp add: divide_right_mono)
  also have "\<dots> < 20"
    by simp
  finally show ?thesis
    using False assms(2) by (simp add: roundDouble_def u)
qed

text \<open>
  The floor of a scaled, rounded draw: it is a column of the grid, it is the column that
  exact arithmetic gives unless the draw is within a rounding error of the column's upper
  edge, and it is never further than that from the exact column.
\<close>

lemma scaled_floor_range:
  assumes "isDouble x" and "0 \<le> x" and "x < 1"
  shows "0 \<le> \<lfloor>roundDouble (x * 20)\<rfloor> \<and> \<lfloor>roundDouble (x * 20)\<rfloor> < 20"
proof -
  have small: "\<bar>x * 20\<bar> < 2 ^ 53"
    using assms(2,3) by simp
  have "0 \<le> roundDouble (x * 20)"
    using assms(2) small by (intro roundDouble_nonneg) simp_all
  moreover have "roundDouble (x * 20) < 20"
    by (rule scaled_draw_below [OF assms])
  ultimately show ?thesis
    by (simp add: floor_less_iff)
qed




section \<open>Auxiliary facts\<close>

lemma grid_ratio: "(of_int CANVAS_SIZE / of_int GRID_SIZE :: real) = 20"
  by (simp add: CANVAS_SIZE_def GRID_SIZE_def)

lemma cell_eq_iff: "(c :: cell) = d \<longleftrightarrow> pos_x c = pos_x d \<and> pos_y c = pos_y d"
  by (cases c; cases d) simp

lemma list_ex_cell:
  "list_ex (\<lambda>segment. pos_x segment = pos_x (c::cell) \<and> pos_y segment = pos_y c) snake
     \<longleftrightarrow> c \<in> set snake"
  by (induction snake) (auto simp: cell_eq_iff)

lemma collides_iff: "collides c snake \<longleftrightarrow> \<not> inGrid c \<or> c \<in> set snake"
  unfolding collides_def grid_ratio list_ex_cell inGrid_def gridN_def by auto

lemma getRandomPosition_inGrid: "validDraw r \<Longrightarrow> inGrid (getRandomPosition r)"
  unfolding validDraw_def getRandomPosition_def grid_ratio inGrid_def gridN_def
  using scaled_floor_range [of "fst r"] scaled_floor_range [of "snd r"]
  by simp

lemma roundDouble_examples:
  "roundDouble (45 / 4) = 45 / 4" "roundDouble 10 = 10" "roundDouble 15 = 15"
  using roundDouble_dyadic [of 45 2] roundDouble_dyadic [of 10 0] roundDouble_dyadic [of 15 0]
  by simp_all

lemma getRandomPosition_examples:
  "getRandomPosition (9 / 16, 1 / 2) = \<lparr>pos_x = 11, pos_y = 10\<rparr>"
  "getRandomPosition (3 / 4, 3 / 4) = \<lparr>pos_x = 15, pos_y = 15\<rparr>"
  unfolding getRandomPosition_def grid_ratio
  by (simp_all add: roundDouble_examples)

lemma isDouble_examples: "isDouble 0" "isDouble (1 / 2)" "isDouble (3 / 4)" "isDouble (9 / 16)"
  unfolding isDouble_def
  using roundDouble_dyadic [of 0 0] roundDouble_dyadic [of 1 1] roundDouble_dyadic [of 3 2]
    roundDouble_dyadic [of 9 4]
  by simp_all

text \<open>The three outcomes of a move, one lemma each.\<close>

lemma moveSnake_collision:
  "snakeRef s = first # rest \<Longrightarrow> collides (shifted first (directionRef s)) (snakeRef s) \<Longrightarrow>
   moveSnake r s = s\<lparr>gameOver := True, isPlaying := False\<rparr>"
  by (simp add: moveSnake_def)

lemma moveSnake_eat:
  "snakeRef s = first # rest \<Longrightarrow> \<not> collides (shifted first (directionRef s)) (snakeRef s) \<Longrightarrow>
   shifted first (directionRef s) = foodRef s \<Longrightarrow>
   moveSnake r s = s\<lparr>snakeRef := shifted first (directionRef s) # snakeRef s,
                      score := score s + 1, foodRef := getRandomPosition r\<rparr>"
  by (simp add: moveSnake_def)

lemma moveSnake_plain:
  "snakeRef s = first # rest \<Longrightarrow> \<not> collides (shifted first (directionRef s)) (snakeRef s) \<Longrightarrow>
   shifted first (directionRef s) \<noteq> foodRef s \<Longrightarrow>
   moveSnake r s = s\<lparr>snakeRef := shifted first (directionRef s) # butlast (snakeRef s)\<rparr>"
  by (auto simp: moveSnake_def Let_def cell_eq_iff)

lemma handleKeyPress_fields:
  "snakeRef (handleKeyPress key s) = snakeRef s"
  "foodRef (handleKeyPress key s) = foodRef s"
  "score (handleKeyPress key s) = score s"
  "gameOver (handleKeyPress key s) = gameOver s"
  "isPlaying (handleKeyPress key s) = isPlaying s"
  by (simp_all add: handleKeyPress_def)

lemma ex_fresh_eq:
  "ex_fresh =
     \<lparr>snakeRef = [\<lparr>pos_x = 10, pos_y = 10\<rparr>],
      foodRef = \<lparr>pos_x = 11, pos_y = 10\<rparr>,
      directionRef = \<lparr>pos_x = 1, pos_y = 0\<rparr>,
      score = 0, gameOver = False, isPlaying = True\<rparr>"
  by (simp add: ex_fresh_def startGame_def initialGame_def getRandomPosition_examples)

lemma ex_grown_eq:
  "ex_grown =
     \<lparr>snakeRef = [\<lparr>pos_x = 11, pos_y = 10\<rparr>, \<lparr>pos_x = 10, pos_y = 10\<rparr>],
      foodRef = \<lparr>pos_x = 15, pos_y = 15\<rparr>,
      directionRef = \<lparr>pos_x = 1, pos_y = 0\<rparr>,
      score = 1, gameOver = False, isPlaying = True\<rparr>"
  by (simp add: ex_grown_def ex_fresh_eq moveSnake_def shifted_def collides_def
      getRandomPosition_examples grid_ratio)

lemma ex_up_eq:
  "ex_up =
     \<lparr>snakeRef = [\<lparr>pos_x = 11, pos_y = 10\<rparr>, \<lparr>pos_x = 10, pos_y = 10\<rparr>],
      foodRef = \<lparr>pos_x = 15, pos_y = 15\<rparr>,
      directionRef = \<lparr>pos_x = 0, pos_y = -1\<rparr>,
      score = 1, gameOver = False, isPlaying = True\<rparr>"
  by (simp add: ex_up_def ex_grown_eq handleKeyPress_def)

lemma ex_left_eq:
  "ex_left =
     \<lparr>snakeRef = [\<lparr>pos_x = 11, pos_y = 10\<rparr>, \<lparr>pos_x = 10, pos_y = 10\<rparr>],
      foodRef = \<lparr>pos_x = 15, pos_y = 15\<rparr>,
      directionRef = \<lparr>pos_x = -1, pos_y = 0\<rparr>,
      score = 1, gameOver = False, isPlaying = True\<rparr>"
  by (simp add: ex_left_def ex_up_eq handleKeyPress_def)

lemma validDraw_examples: "validDraw (9 / 16, 1 / 2)" "validDraw (3 / 4, 3 / 4)" "validDraw (0, 0)"
  by (simp_all add: validDraw_def isDouble_examples)

lemma reachable_ex_fresh: "reachable ex_fresh"
  unfolding ex_fresh_def
  by (rule reachable.started [OF reachable.mounted]) (simp_all add: initialGame_def validDraw_examples)

lemma reachable_ex_grown: "reachable ex_grown"
  unfolding ex_grown_def
  by (rule reachable.ticked [OF reachable_ex_fresh]) (simp_all add: ex_fresh_eq validDraw_examples)

lemma reachable_ex_left: "reachable ex_left"
  unfolding ex_left_def ex_up_def
  by (intro reachable.pressed reachable_ex_grown)

section \<open>Preservation of the invariant\<close>

lemma unitVector_handleKeyPress:
  "unitVector (directionRef s) \<Longrightarrow> unitVector (directionRef (handleKeyPress key s))"
  by (simp add: handleKeyPress_def unitVector_def)

lemma wellFormed_initialGame: "wellFormed initialGame"
  by (simp add: wellFormed_def initialGame_def inGrid_def gridN_def unitVector_def)

lemma wellFormed_startGame: "validDraw r \<Longrightarrow> wellFormed (startGame r s)"
  by (simp add: wellFormed_def startGame_def inGrid_def gridN_def unitVector_def
      getRandomPosition_inGrid [unfolded inGrid_def gridN_def])

lemma wellFormed_handleKeyPress: "wellFormed s \<Longrightarrow> wellFormed (handleKeyPress key s)"
  by (simp add: wellFormed_def handleKeyPress_fields unitVector_handleKeyPress)

lemma wellFormed_moveSnake:
  assumes "wellFormed s" "validDraw r"
  shows "wellFormed (moveSnake r s)"
proof -
  from assms(1) obtain first rest where snake: "snakeRef s = first # rest"
    by (auto simp: wellFormed_def neq_Nil_conv)
  let ?head = "shifted first (directionRef s)"
  consider (collision) "collides ?head (snakeRef s)"
    | (eat) "\<not> collides ?head (snakeRef s)" "?head = foodRef s"
    | (plain) "\<not> collides ?head (snakeRef s)" "?head \<noteq> foodRef s"
    by blast
  then show ?thesis
  proof cases
    case collision
    with assms(1) show ?thesis
      by (simp add: moveSnake_collision [OF snake] wellFormed_def)
  next
    case eat
    with assms snake show ?thesis
      by (auto simp: moveSnake_eat [OF snake] wellFormed_def collides_iff
          getRandomPosition_inGrid)
  next
    case plain
    with assms snake show ?thesis
      by (auto simp: moveSnake_plain [OF snake] wellFormed_def collides_iff distinct_butlast
          dest: in_set_butlastD)
  qed
qed

lemma reachable_wellFormed: "reachable s \<Longrightarrow> wellFormed s"
  by (induction rule: reachable.induct)
    (simp_all add: wellFormed_initialGame wellFormed_startGame wellFormed_moveSnake
      wellFormed_handleKeyPress)

section \<open>Further facts about keys and moves\<close>

lemma ex_over_eq:
  "ex_over =
     \<lparr>snakeRef = [\<lparr>pos_x = 11, pos_y = 10\<rparr>, \<lparr>pos_x = 10, pos_y = 10\<rparr>],
      foodRef = \<lparr>pos_x = 15, pos_y = 15\<rparr>,
      directionRef = \<lparr>pos_x = -1, pos_y = 0\<rparr>,
      score = 1, gameOver = True, isPlaying = False\<rparr>"
  by (simp add: ex_over_def ex_left_eq moveSnake_def shifted_def collides_def grid_ratio)

lemma reachable_ex_over: "reachable ex_over"
  unfolding ex_over_def
  by (rule reachable.ticked [OF reachable_ex_left]) (simp_all add: ex_left_eq validDraw_examples)

lemma unitVector_components:
  "unitVector d \<longleftrightarrow>
     pos_x d = 1 \<and> pos_y d = 0 \<or> pos_x d = -1 \<and> pos_y d = 0 \<or>
     pos_x d = 0 \<and> pos_y d = 1 \<or> pos_x d = 0 \<and> pos_y d = -1"
  by (simp add: unitVector_def cell_eq_iff)

lemma updateGame_state: "snd (updateGame r (ctx, s)) = moveSnake r s"
  by (simp add: updateGame_def)

lemma ex_edge_fields:
  "isPlaying ex_edge"
  "snakeRef ex_edge = \<lparr>pos_x = 0, pos_y = 10\<rparr> # [\<lparr>pos_x = 1, pos_y = 10\<rparr>]"
  "directionRef ex_edge = \<lparr>pos_x = -1, pos_y = 0\<rparr>"
  by (simp_all add: ex_edge_def)






lemma ex_grown_fields:
  "isPlaying ex_grown"
  "snakeRef ex_grown = \<lparr>pos_x = 11, pos_y = 10\<rparr> # [\<lparr>pos_x = 10, pos_y = 10\<rparr>]"
  "directionRef ex_grown = \<lparr>pos_x = 1, pos_y = 0\<rparr>"
  "foodRef ex_grown = \<lparr>pos_x = 15, pos_y = 15\<rparr>"
  "score ex_grown = 1"
  by (simp_all add: ex_grown_eq)

lemma ex_coil_fields:
  "isPlaying ex_coil"
  "snakeRef ex_coil =
     [\<lparr>pos_x = 10, pos_y = 10\<rparr>, \<lparr>pos_x = 10, pos_y = 11\<rparr>,
      \<lparr>pos_x = 11, pos_y = 11\<rparr>, \<lparr>pos_x = 11, pos_y = 10\<rparr>]"
  "directionRef ex_coil = \<lparr>pos_x = 1, pos_y = 0\<rparr>"
  by (simp_all add: ex_coil_def)

lemma spec_render_examples:
  "spec_render ex_fresh =
     [ClearRect 0 0 400 400, FillRect ''green'' 200 200 20 20, FillRect ''red'' 220 200 20 20]"
  "spec_render ex_grown =
     [ClearRect 0 0 400 400, FillRect ''green'' 220 200 20 20, FillRect ''green'' 200 200 20 20,
      FillRect ''red'' 300 300 20 20]"
  by (simp_all add: spec_render_def ex_fresh_eq ex_grown_eq CANVAS_SIZE_def GRID_SIZE_def)

section \<open>Direction requests\<close>

text \<open>
  Claim C1 says that a request for the exact opposite of the committed direction, the one
  the previous move used, is rejected, whatever was requested in between. The guards of
  \<open>handleKeyPress\<close> aim at this and refuse Left while the snake heads right. But they
  read the direction variable that an accepted request has already overwritten: after a
  move to the right, Up is accepted, and then Left, pressed before the next move, is
  accepted too, although \<open>(-1, 0)\<close> is the exact opposite of the \<open>(1, 0)\<close> of the previous
  move. The next move runs the head into the neck and the game is over. The program
  breaks the claim here.
\<close>

theorem C1_reversal_accepted:
  "ex_grown = moveSnake (3 / 4, 3 / 4) ex_fresh \<and>
   directionRef ex_fresh = \<lparr>pos_x = 1, pos_y = 0\<rparr> \<and>
   directionRef ex_grown = \<lparr>pos_x = 1, pos_y = 0\<rparr> \<and>
   requested ''ArrowLeft'' = Some \<lparr>pos_x = -1, pos_y = 0\<rparr> \<and>
   opposite \<lparr>pos_x = -1, pos_y = 0\<rparr> (directionRef ex_grown) \<and>
   handleKeyPress ''ArrowLeft'' ex_grown = ex_grown \<and>
   ex_up = handleKeyPress ''ArrowUp'' ex_grown \<and>
   isPlaying ex_up \<and>
   directionRef ex_up = \<lparr>pos_x = 0, pos_y = -1\<rparr> \<and>
   directionRef (handleKeyPress ''ArrowLeft'' ex_up) = \<lparr>pos_x = -1, pos_y = 0\<rparr> \<and>
   directionRef (handleKeyPress ''ArrowLeft'' ex_up) \<noteq> directionRef ex_up \<and>
   gameOver (moveSnake (0, 0) (handleKeyPress ''ArrowLeft'' ex_up))"
proof -
  have left: "handleKeyPress ''ArrowLeft'' ex_up = ex_left"
    by (simp add: ex_left_def)
  have over: "moveSnake (0, 0) ex_left = ex_over"
    by (simp add: ex_over_def)
  have tick: "ex_grown = moveSnake (3 / 4, 3 / 4) ex_fresh"
    by (rule ex_grown_def)
  have up: "ex_up = handleKeyPress ''ArrowUp'' ex_grown"
    by (rule ex_up_def)
  have req: "requested ''ArrowLeft'' = Some \<lparr>pos_x = -1, pos_y = 0\<rparr>"
    by (simp add: requested_def)
  have refused: "handleKeyPress ''ArrowLeft'' ex_grown = ex_grown"
    by (simp add: handleKeyPress_def ex_grown_eq)
  have rest:
    "directionRef ex_fresh = \<lparr>pos_x = 1, pos_y = 0\<rparr>"
    "directionRef ex_grown = \<lparr>pos_x = 1, pos_y = 0\<rparr>"
    "isPlaying ex_up"
    "directionRef ex_up = \<lparr>pos_x = 0, pos_y = -1\<rparr>"
    "opposite \<lparr>pos_x = -1, pos_y = 0\<rparr> (directionRef ex_grown)"
    "directionRef ex_left = \<lparr>pos_x = -1, pos_y = 0\<rparr>"
    "directionRef ex_left \<noteq> directionRef ex_up"
    "gameOver ex_over"
    by (simp_all add: ex_fresh_eq ex_grown_eq ex_up_eq ex_left_eq ex_over_eq opposite_def)
  show ?thesis
    unfolding left over
    by (intro conjI tick up req refused rest)
qed

section \<open>Collisions\<close>

text \<open>
  Claim C2. Take a running game whose shifted head leaves the grid \<open>[0, N) \<times> [0, N)\<close>
  or equals a cell of the snake as it is before the move. Then the move only sets
  \<open>gameOver\<close> and clears \<open>isPlaying\<close>, so the phase becomes \<open>Over\<close>, and the snake, the
  food, the score and the direction keep their values; the periodic callback leaves the
  same state.
\<close>

theorem C2_collision_ends_game:
  assumes "isPlaying s" and "snakeRef s = first # rest"
    and "\<not> inGrid (shifted first (directionRef s)) \<or>
         shifted first (directionRef s) \<in> set (snakeRef s)"
  shows "moveSnake r s = s\<lparr>gameOver := True, isPlaying := False\<rparr> \<and>
         phase_of (moveSnake r s) = Over \<and>
         snakeRef (moveSnake r s) = snakeRef s \<and>
         foodRef (moveSnake r s) = foodRef s \<and>
         score (moveSnake r s) = score s \<and>
         directionRef (moveSnake r s) = directionRef s \<and>
         snd (updateGame r (ctx, s)) = moveSnake r s"
proof -
  from assms(3) have "collides (shifted first (directionRef s)) (snakeRef s)"
    by (simp add: collides_iff)
  then have over: "moveSnake r s = s\<lparr>gameOver := True, isPlaying := False\<rparr>"
    by (rule moveSnake_collision [OF assms(2)])
  show ?thesis
    unfolding updateGame_state
    by (simp add: over phase_of_def)
qed

text \<open>
  The scenario of the specification: the snake \<open>[(0,10), (1,10)]\<close> heading left reaches
  \<open>(-1, 10)\<close>, which is off the grid; the game is over and the snake is as before.
\<close>

theorem C2_collision_ends_game_witness:
  "isPlaying ex_edge \<and>
   snakeRef ex_edge = [\<lparr>pos_x = 0, pos_y = 10\<rparr>, \<lparr>pos_x = 1, pos_y = 10\<rparr>] \<and>
   shifted \<lparr>pos_x = 0, pos_y = 10\<rparr> (directionRef ex_edge) = \<lparr>pos_x = -1, pos_y = 10\<rparr> \<and>
   \<not> inGrid \<lparr>pos_x = -1, pos_y = 10\<rparr> \<and>
   moveSnake (0, 0) ex_edge = ex_edge\<lparr>gameOver := True, isPlaying := False\<rparr> \<and>
   phase_of (moveSnake (0, 0) ex_edge) = Over \<and>
   snakeRef (moveSnake (0, 0) ex_edge) = [\<lparr>pos_x = 0, pos_y = 10\<rparr>, \<lparr>pos_x = 1, pos_y = 10\<rparr>]"
proof -
  have head: "shifted \<lparr>pos_x = 0, pos_y = 10\<rparr> (directionRef ex_edge) = \<lparr>pos_x = -1, pos_y = 10\<rparr>"
    by (simp add: ex_edge_fields shifted_def)
  have out: "\<not> inGrid \<lparr>pos_x = -1, pos_y = 10\<rparr>"
    by (simp add: inGrid_def)
  have hyp: "\<not> inGrid (shifted \<lparr>pos_x = 0, pos_y = 10\<rparr> (directionRef ex_edge)) \<or>
      shifted \<lparr>pos_x = 0, pos_y = 10\<rparr> (directionRef ex_edge) \<in> set (snakeRef ex_edge)"
    by (simp add: head out)
  note fact = C2_collision_ends_game [OF ex_edge_fields(1) ex_edge_fields(2) hyp, of "(0, 0)" "[]"]
  have snake: "snakeRef (moveSnake (0, 0) ex_edge) =
      [\<lparr>pos_x = 0, pos_y = 10\<rparr>, \<lparr>pos_x = 1, pos_y = 10\<rparr>]"
    using fact by (simp add: ex_edge_fields)
  from fact have a: "moveSnake (0, 0) ex_edge = ex_edge\<lparr>gameOver := True, isPlaying := False\<rparr>"
    and b: "phase_of (moveSnake (0, 0) ex_edge) = Over"
    by blast+
  show ?thesis
    by (intro conjI ex_edge_fields(1) head out a b snake) (simp add: ex_edge_fields)
qed

section \<open>Eating\<close>




section \<open>Moving without eating\<close>

text \<open>
  Claim C4. Take a running game whose shifted head neither collides nor equals the food
  cell. Then the move prepends the shifted head and removes the last cell: the snake keeps
  its length, its head is the old head shifted by the direction (one unit, the direction
  being a unit vector), the rest is the old snake without its last cell, and the score and
  the food are unchanged.
\<close>

theorem C4_plain_move:
  assumes "isPlaying s" and "snakeRef s = first # rest"
    and "\<not> collides (shifted first (directionRef s)) (snakeRef s)"
    and "shifted first (directionRef s) \<noteq> foodRef s"
  shows "moveSnake r s = s\<lparr>snakeRef := shifted first (directionRef s) # butlast (snakeRef s)\<rparr> \<and>
         length (snakeRef (moveSnake r s)) = length (snakeRef s) \<and>
         hd (snakeRef (moveSnake r s)) = shifted first (directionRef s) \<and>
         tl (snakeRef (moveSnake r s)) = butlast (snakeRef s) \<and>
         score (moveSnake r s) = score s \<and>
         foodRef (moveSnake r s) = foodRef s \<and>
         phase_of (moveSnake r s) = Running \<and>
         (unitVector (directionRef s) \<longrightarrow>
            \<bar>pos_x (hd (snakeRef (moveSnake r s))) - pos_x first\<bar> +
            \<bar>pos_y (hd (snakeRef (moveSnake r s))) - pos_y first\<bar> = 1)"
proof -
  have plain: "moveSnake r s =
      s\<lparr>snakeRef := shifted first (directionRef s) # butlast (snakeRef s)\<rparr>"
    by (rule moveSnake_plain [OF assms(2,3,4)])
  have unit: "\<bar>pos_x (shifted first d) - pos_x first\<bar> + \<bar>pos_y (shifted first d) - pos_y first\<bar> = 1"
    if "unitVector d" for d
    using that by (auto simp: unitVector_components shifted_def)
  show ?thesis
    unfolding plain using assms(1,2) unit
    by (simp add: phase_of_def)
qed

text \<open>The two-cell snake heading right moves from \<open>[(11,10), (10,10)]\<close> to \<open>[(12,10), (11,10)]\<close>.\<close>

theorem C4_plain_move_witness:
  "isPlaying ex_grown \<and>
   snakeRef ex_grown = [\<lparr>pos_x = 11, pos_y = 10\<rparr>, \<lparr>pos_x = 10, pos_y = 10\<rparr>] \<and>
   \<not> collides (shifted \<lparr>pos_x = 11, pos_y = 10\<rparr> (directionRef ex_grown)) (snakeRef ex_grown) \<and>
   shifted \<lparr>pos_x = 11, pos_y = 10\<rparr> (directionRef ex_grown) \<noteq> foodRef ex_grown \<and>
   snakeRef (moveSnake (0, 0) ex_grown) = [\<lparr>pos_x = 12, pos_y = 10\<rparr>, \<lparr>pos_x = 11, pos_y = 10\<rparr>] \<and>
   score (moveSnake (0, 0) ex_grown) = 1 \<and>
   foodRef (moveSnake (0, 0) ex_grown) = \<lparr>pos_x = 15, pos_y = 15\<rparr>"
proof -
  have free: "\<not> collides (shifted \<lparr>pos_x = 11, pos_y = 10\<rparr> (directionRef ex_grown))
      (snakeRef ex_grown)"
    by (simp add: ex_grown_fields shifted_def collides_def grid_ratio)
  have nofood: "shifted \<lparr>pos_x = 11, pos_y = 10\<rparr> (directionRef ex_grown) \<noteq> foodRef ex_grown"
    by (simp add: ex_grown_fields shifted_def)
  have moved: "moveSnake (0, 0) ex_grown =
      ex_grown\<lparr>snakeRef := shifted \<lparr>pos_x = 11, pos_y = 10\<rparr> (directionRef ex_grown) #
        butlast (snakeRef ex_grown)\<rparr>"
    by (rule C4_plain_move [OF ex_grown_fields(1) ex_grown_fields(2) free nofood,
          of "(0, 0)", THEN conjunct1])
  show ?thesis
    unfolding moved
    by (intro conjI ex_grown_fields(1) free nofood) (simp_all add: ex_grown_fields shifted_def)
qed

section \<open>Invariants of the reachable states\<close>

text \<open>
  Claim C5. In every reachable state the snake has no duplicate cell and at least one
  cell. This holds in each phase: while the game is idle or running, and also once it is
  over, since the move that detects a collision leaves the snake as it was.
\<close>

theorem C5_snake_distinct:
  "reachable s \<Longrightarrow> distinct (snakeRef s) \<and> 1 \<le> length (snakeRef s)"
proof -
  assume "reachable s"
  then have "wellFormed s"
    by (rule reachable_wellFormed)
  then have "distinct (snakeRef s)" and "snakeRef s \<noteq> []"
    by (simp_all add: wellFormed_def)
  then show ?thesis
    by (cases "snakeRef s") simp_all
qed

text \<open>The game that ended by running into its own neck: reachable, over, and without duplicates.\<close>

theorem C5_snake_distinct_witness:
  "reachable ex_over \<and> phase_of ex_over = Over \<and>
   snakeRef ex_over = [\<lparr>pos_x = 11, pos_y = 10\<rparr>, \<lparr>pos_x = 10, pos_y = 10\<rparr>] \<and>
   distinct (snakeRef ex_over) \<and> 1 \<le> length (snakeRef ex_over)"
proof -
  note fact = C5_snake_distinct [OF reachable_ex_over]
  have "phase_of ex_over = Over"
    and "snakeRef ex_over = [\<lparr>pos_x = 11, pos_y = 10\<rparr>, \<lparr>pos_x = 10, pos_y = 10\<rparr>]"
    by (simp_all add: ex_over_eq phase_of_def)
  with fact reachable_ex_over show ?thesis
    by blast
qed

section \<open>Starting\<close>

text \<open>
  Claim C6. \<open>startGame\<close> sets every field of the state: the snake is the single cell
  \<open>(10, 10)\<close>, the direction is \<open>(1, 0)\<close>, the food is resampled from the draw, the score
  is 0, \<open>gameOver\<close> is false and \<open>isPlaying\<close> is true, so the phase is \<open>Running\<close>. The
  result does not depend on the state it is called in (idle, over or any other), and
  starting twice gives what starting once gives: up to the resampled food there is one
  fresh state.
\<close>

theorem C6_startGame:
  "startGame r s =
     \<lparr>snakeRef = [\<lparr>pos_x = 10, pos_y = 10\<rparr>],
      foodRef = getRandomPosition r,
      directionRef = \<lparr>pos_x = 1, pos_y = 0\<rparr>,
      score = 0, gameOver = False, isPlaying = True\<rparr> \<and>
   phase_of (startGame r s) = Running \<and>
   startGame r s = startGame r s' \<and>
   startGame r (startGame r' s) = startGame r s"
proof -
  have fresh: "startGame q u =
      \<lparr>snakeRef = [\<lparr>pos_x = 10, pos_y = 10\<rparr>],
       foodRef = getRandomPosition q,
       directionRef = \<lparr>pos_x = 1, pos_y = 0\<rparr>,
       score = 0, gameOver = False, isPlaying = True\<rparr>" for q u
    by (cases u) (simp add: startGame_def)
  show ?thesis
    unfolding fresh by (simp add: phase_of_def)
qed

text \<open>The scenario of the specification: starting after the game is over.\<close>

theorem C6_startGame_witness:
  "phase_of ex_over = Over \<and> score ex_over = 1 \<and>
   startGame (3 / 4, 3 / 4) ex_over =
     \<lparr>snakeRef = [\<lparr>pos_x = 10, pos_y = 10\<rparr>],
      foodRef = \<lparr>pos_x = 15, pos_y = 15\<rparr>,
      directionRef = \<lparr>pos_x = 1, pos_y = 0\<rparr>,
      score = 0, gameOver = False, isPlaying = True\<rparr> \<and>
   phase_of (startGame (3 / 4, 3 / 4) ex_over) = Running"
proof -
  note fact = C6_startGame [of "(3 / 4, 3 / 4)" ex_over]
  have draw: "getRandomPosition (3 / 4, 3 / 4) = \<lparr>pos_x = 15, pos_y = 15\<rparr>"
    by (rule getRandomPosition_examples)
  have before: "phase_of ex_over = Over" "score ex_over = 1"
    by (simp_all add: ex_over_eq phase_of_def)
  from fact have "startGame (3 / 4, 3 / 4) ex_over =
      \<lparr>snakeRef = [\<lparr>pos_x = 10, pos_y = 10\<rparr>],
       foodRef = \<lparr>pos_x = 15, pos_y = 15\<rparr>,
       directionRef = \<lparr>pos_x = 1, pos_y = 0\<rparr>,
       score = 0, gameOver = False, isPlaying = True\<rparr>"
    and "phase_of (startGame (3 / 4, 3 / 4) ex_over) = Running"
    unfolding draw by blast+
  with before show ?thesis
    by blast
qed

section \<open>Stepping onto the tail\<close>

text \<open>
  Claim C7. Take a running game with a snake of at least two cells whose shifted head
  equals the last cell of the snake. The collision test scans the whole snake as it is
  before the move, the tail included, so the test succeeds and the phase becomes
  \<open>Over\<close>, although a move without eating would have vacated that cell.
\<close>

theorem C7_tail_collision:
  assumes "isPlaying s" and "2 \<le> length (snakeRef s)"
    and "shifted (hd (snakeRef s)) (directionRef s) = last (snakeRef s)"
  shows "collides (shifted (hd (snakeRef s)) (directionRef s)) (snakeRef s) \<and>
         moveSnake r s = s\<lparr>gameOver := True, isPlaying := False\<rparr> \<and>
         phase_of (moveSnake r s) = Over"
proof -
  from assms(2) obtain first rest where snake: "snakeRef s = first # rest"
    by (cases "snakeRef s") simp_all
  have "snakeRef s \<noteq> []"
    by (simp add: snake)
  then have "last (snakeRef s) \<in> set (snakeRef s)"
    by (rule last_in_set)
  with assms(3) have hit: "collides (shifted (hd (snakeRef s)) (directionRef s)) (snakeRef s)"
    by (simp add: collides_iff)
  then have "collides (shifted first (directionRef s)) (snakeRef s)"
    by (simp add: snake)
  then have over: "moveSnake r s = s\<lparr>gameOver := True, isPlaying := False\<rparr>"
    by (rule moveSnake_collision [OF snake])
  from hit over show ?thesis
    by (simp add: phase_of_def)
qed

text \<open>
  The coiled snake: the shifted head \<open>(11, 10)\<close> is on the grid and meets no cell but the
  tail, and the game is over.
\<close>

theorem C7_tail_collision_witness:
  "isPlaying ex_coil \<and> 2 \<le> length (snakeRef ex_coil) \<and>
   shifted (hd (snakeRef ex_coil)) (directionRef ex_coil) = last (snakeRef ex_coil) \<and>
   last (snakeRef ex_coil) = \<lparr>pos_x = 11, pos_y = 10\<rparr> \<and>
   inGrid \<lparr>pos_x = 11, pos_y = 10\<rparr> \<and>
   \<lparr>pos_x = 11, pos_y = 10\<rparr> \<notin> set (butlast (snakeRef ex_coil)) \<and>
   moveSnake (0, 0) ex_coil = ex_coil\<lparr>gameOver := True, isPlaying := False\<rparr> \<and>
   phase_of (moveSnake (0, 0) ex_coil) = Over"
proof -
  have len: "2 \<le> length (snakeRef ex_coil)"
    by (simp add: ex_coil_fields)
  have tail: "shifted (hd (snakeRef ex_coil)) (directionRef ex_coil) = last (snakeRef ex_coil)"
    by (simp add: ex_coil_fields shifted_def)
  note fact = C7_tail_collision [OF ex_coil_fields(1) len tail, of "(0, 0)"]
  have facts: "last (snakeRef ex_coil) = \<lparr>pos_x = 11, pos_y = 10\<rparr>"
    "inGrid \<lparr>pos_x = 11, pos_y = 10\<rparr>"
    "\<lparr>pos_x = 11, pos_y = 10\<rparr> \<notin> set (butlast (snakeRef ex_coil))"
    by (simp_all add: ex_coil_fields inGrid_def gridN_def)
  from fact have "moveSnake (0, 0) ex_coil = ex_coil\<lparr>gameOver := True, isPlaying := False\<rparr>"
    and "phase_of (moveSnake (0, 0) ex_coil) = Over"
    by blast+
  with ex_coil_fields(1) len tail facts show ?thesis
    by blast
qed

section \<open>Drawing and moving\<close>

text \<open>
  Claim C8, as amended. Each periodic callback first clears the sink, then draws every
  snake cell and the food cell, all from the state as it is before the callback moves the
  snake, and moves the snake last: the frame of a callback depicts the state before its
  move, which is the state the previous callback (or \<open>startGame\<close>) produced, and the
  state a callback produces is drawn by the next one. At mount the snake and the food are
  drawn once, without clearing.
\<close>

theorem C8_draw_then_move:
  "updateGame r (ctx, s) = (ctx @ spec_render s, moveSnake r s) \<and>
   updateGame r' (updateGame r (ctx, s)) =
     (ctx @ spec_render s @ spec_render (moveSnake r s), moveSnake r' (moveSnake r s)) \<and>
   mountEffect ctx s = ctx @ tl (spec_render s)"
proof -
  have once: "updateGame q (c, u) = (c @ spec_render u, moveSnake q u)" for q c u
    by (simp add: updateGame_def drawSnake_def drawFood_def spec_render_def)
  have mount: "mountEffect ctx s = ctx @ tl (spec_render s)"
    by (simp add: mountEffect_def drawSnake_def drawFood_def spec_render_def)
  show ?thesis
    unfolding once by (simp add: mount)
qed

text \<open>
  Claim C8 as worded fails: the first callback of the scenario's game draws the snake
  \<open>[(10,10)]\<close> and the food at \<open>(11,10)\<close>, while the state it leaves has the snake
  \<open>[(11,10), (10,10)]\<close> and the food at \<open>(15,15)\<close>.
\<close>

theorem C8_frame_counterexample:
  "fst (updateGame (3 / 4, 3 / 4) ([], ex_fresh)) =
     [ClearRect 0 0 400 400, FillRect ''green'' 200 200 20 20, FillRect ''red'' 220 200 20 20] \<and>
   snd (updateGame (3 / 4, 3 / 4) ([], ex_fresh)) = ex_grown \<and>
   spec_render (snd (updateGame (3 / 4, 3 / 4) ([], ex_fresh))) =
     [ClearRect 0 0 400 400, FillRect ''green'' 220 200 20 20, FillRect ''green'' 200 200 20 20,
      FillRect ''red'' 300 300 20 20] \<and>
   fst (updateGame (3 / 4, 3 / 4) ([], ex_fresh)) \<noteq>
     spec_render (snd (updateGame (3 / 4, 3 / 4) ([], ex_fresh)))"
proof -
  have run: "updateGame (3 / 4, 3 / 4) ([], ex_fresh) = (spec_render ex_fresh, ex_grown)"
    by (simp add: updateGame_def drawSnake_def drawFood_def spec_render_def ex_grown_def)
  show ?thesis
    unfolding run fst_conv snd_conv spec_render_examples by simp
qed

section \<open>Score and length\<close>

text \<open>
  Claim C9. In every reachable state, in particular while the game is running, the score
  is the length of the snake minus one.
\<close>

theorem C9_score_length:
  "reachable s \<Longrightarrow> score s = int (length (snakeRef s)) - 1"
proof -
  assume "reachable s"
  then have "wellFormed s"
    by (rule reachable_wellFormed)
  then show ?thesis
    by (simp add: wellFormed_def)
qed

text \<open>After one meal: score 1, length 2.\<close>

theorem C9_score_length_witness:
  "reachable ex_grown \<and> phase_of ex_grown = Running \<and>
   score ex_grown = int (length (snakeRef ex_grown)) - 1 \<and>
   score ex_grown = 1 \<and> length (snakeRef ex_grown) = 2"
proof -
  note fact = C9_score_length [OF reachable_ex_grown]
  have "phase_of ex_grown = Running" "score ex_grown = 1" "length (snakeRef ex_grown) = 2"
    by (simp_all add: ex_grown_eq phase_of_def)
  with fact reachable_ex_grown show ?thesis
    by blast
qed

section \<open>Staying on the grid\<close>

text \<open>
  Claim C10. In every reachable state, in particular while the game is running, every
  cell of the snake and the food cell lie in \<open>[0, N) \<times> [0, N)\<close>, where \<open>N = 20\<close> is
  the quotient \<open>CANVAS_SIZE / GRID_SIZE\<close> of the source.
\<close>

theorem C10_in_bounds:
  "reachable s \<Longrightarrow>
     (\<forall>c \<in> set (snakeRef s). inGrid c) \<and> inGrid (foodRef s) \<and>
     gridN = 20 \<and> (of_int gridN :: real) = of_int CANVAS_SIZE / of_int GRID_SIZE"
proof -
  assume "reachable s"
  then have "wellFormed s"
    by (rule reachable_wellFormed)
  then show ?thesis
    by (simp add: wellFormed_def gridN_def grid_ratio)
qed

text \<open>The running game after a meal and two key presses: its three cells are on the grid.\<close>

theorem C10_in_bounds_witness:
  "reachable ex_left \<and> phase_of ex_left = Running \<and>
   snakeRef ex_left = [\<lparr>pos_x = 11, pos_y = 10\<rparr>, \<lparr>pos_x = 10, pos_y = 10\<rparr>] \<and>
   foodRef ex_left = \<lparr>pos_x = 15, pos_y = 15\<rparr> \<and>
   inGrid \<lparr>pos_x = 11, pos_y = 10\<rparr> \<and> inGrid \<lparr>pos_x = 10, pos_y = 10\<rparr> \<and>
   inGrid \<lparr>pos_x = 15, pos_y = 15\<rparr>"
proof -
  have fields: "phase_of ex_left = Running"
    "snakeRef ex_left = [\<lparr>pos_x = 11, pos_y = 10\<rparr>, \<lparr>pos_x = 10, pos_y = 10\<rparr>]"
    "foodRef ex_left = \<lparr>pos_x = 15, pos_y = 15\<rparr>"
    by (simp_all add: ex_left_eq phase_of_def)
  from C10_in_bounds [OF reachable_ex_left]
  have "inGrid \<lparr>pos_x = 11, pos_y = 10\<rparr>" "inGrid \<lparr>pos_x = 10, pos_y = 10\<rparr>"
    "inGrid \<lparr>pos_x = 15, pos_y = 15\<rparr>"
    unfolding fields by simp_all
  with fields reachable_ex_left show ?thesis
    by blast
qed

end
